theory Spec2Isabelle
  imports
    Main
    "HOL-Library.Char_ord"
    "HOL-Library.List_Lexorder"
    "HOL-Library.Multiset"
    "HOL-Library.Sublist"
begin

section \<open>Data model of \<^verbatim>\<open>src/review.py\<close>\<close>

text \<open>
  Python strings are modelled as \<^typ>\<open>string\<close>: a character is a byte, a text outside
  ASCII is its UTF-8 encoding, and the lexicographic order of the bytes is Python's order
  of strings, by code points. The three dataclasses become records.
  Field names of the source are kept for \<^verbatim>\<open>AccessRow\<close>; the fields that
  \<^verbatim>\<open>PolicyRole\<close> and \<^verbatim>\<open>Violation\<close> share with it carry a prefix
  (\<open>pr_\<close>, \<open>v_\<close>), since record fields are global names.

  A naive \<^verbatim>\<open>datetime\<close> is the number of microseconds since
  0001-01-01T00:00:00, the smallest value of the Python type; a \<^verbatim>\<open>timedelta\<close>
  is a number of microseconds.
\<close>

type_synonym datetime = int
type_synonym timedelta = int

record AccessRow =
  user_id :: string
  user_name :: string
  department :: string
  role :: string
  status :: string
  last_login :: "datetime option"

record PolicyRole =
  pr_role :: string
  allowed_departments :: "string set"
  description :: string

record Violation =
  v_user_id :: string
  v_user_name :: string
  v_department :: string
  v_role :: string
  issue :: string
  severity :: string
  details :: string

datatype error =
    OverflowError
  | MissingColumns "string list"
  | EmptyRole nat
  | DepartmentAllowedEmpty nat

subsection \<open>Library functions the source calls\<close>

definition us_per_day :: int where
  "us_per_day = 86400000000"

text \<open>\<^verbatim>\<open>datetime.max\<close> is 9999-12-31T23:59:59.999999, the last microsecond of day
  3652059 of the proleptic Gregorian calendar.\<close>

definition datetime_max :: datetime where
  "datetime_max = 3652059 * us_per_day - 1"

text \<open>\<^verbatim>\<open>timedelta(days=n)\<close>: raises \<^verbatim>\<open>OverflowError\<close> beyond 999999999 days.\<close>

definition timedelta_days :: "int \<Rightarrow> error + timedelta" where
  "timedelta_days n =
     (if - 999999999 \<le> n \<and> n \<le> 999999999 then Inr (n * us_per_day) else Inl OverflowError)"

text \<open>\<^verbatim>\<open>datetime - timedelta\<close>: raises \<^verbatim>\<open>OverflowError\<close> when the result is not
  a date between year 1 and year 9999.\<close>

definition datetime_sub :: "datetime \<Rightarrow> timedelta \<Rightarrow> error + datetime" where
  "datetime_sub t d =
     (if 0 \<le> t - d \<and> t - d \<le> datetime_max then Inr (t - d) else Inl OverflowError)"

text \<open>\<^verbatim>\<open>(a - b).days\<close> for two datetimes: a timedelta is normalised with
  \<open>0 \<le> seconds < 86400\<close>, so its days are the floor of the quotient.\<close>

definition days_between :: "datetime \<Rightarrow> datetime \<Rightarrow> int" where
  "days_between a b = (a - b) div us_per_day"

text \<open>\<^verbatim>\<open>str(n)\<close> for an integer, as an f-string renders it.\<close>

fun str_nat :: "nat \<Rightarrow> string" where
  "str_nat n =
     (if n < 10 then [''0123456789'' ! n]
      else str_nat (n div 10) @ [''0123456789'' ! (n mod 10)])"

declare str_nat.simps [simp del]

definition str_int :: "int \<Rightarrow> string" where
  "str_int i = (if i < 0 then CHR ''-'' # str_nat (nat (- i)) else str_nat (nat i))"

text \<open>\<^verbatim>\<open>sep.join(xs)\<close>.\<close>

fun join :: "string \<Rightarrow> string list \<Rightarrow> string" where
  "join sep [] = []"
| "join sep [x] = x"
| "join sep (x # y # ys) = x @ sep @ join sep (y # ys)"

text \<open>\<^verbatim>\<open>s.strip()\<close>: leading and trailing whitespace removed. The whitespace
  characters are those of \<^verbatim>\<open>str.isspace\<close> in the ASCII range: tab, line feed,
  vertical tab, form feed, carriage return, the four separators 28 to 31, and space.
  The whitespace outside ASCII, which Python strips as well, is left out: the properties
  below that mention \<open>strip\<close> hold whatever it removes.\<close>

definition isspace :: "char \<Rightarrow> bool" where
  "isspace c = (of_char c \<in> {9, 10, 11, 12, 13, 28, 29, 30, 31, 32 :: nat})"

definition strip :: "string \<Rightarrow> string" where
  "strip s = rev (dropWhile isspace (rev (dropWhile isspace s)))"

text \<open>\<^verbatim>\<open>s.split(",")\<close>: the pieces between the commas, empty pieces included;
  never the empty list.\<close>

fun split_comma :: "string \<Rightarrow> string list" where
  "split_comma [] = [[]]"
| "split_comma (c # cs) =
     (if c = CHR '','' then [] # split_comma cs
      else (case split_comma cs of
              [] \<Rightarrow> [[c]]
            | w # ws \<Rightarrow> (c # w) # ws))"

section \<open>CSV helpers\<close>

text \<open>
  \<^verbatim>\<open>csv.DictReader\<close> hands \<^verbatim>\<open>read_policy_roles\<close> the header
  (\<^verbatim>\<open>reader.fieldnames\<close>, \<^verbatim>\<open>None\<close> for an empty file) and one dict per data
  row. A row is a map from column name to text; \<open>None\<close> is Python's \<^verbatim>\<open>None\<close>, the
  value of a column that a short row leaves out. Opening and decoding the file are
  outside the model.
\<close>

type_synonym csv_row = "string \<rightharpoonup> string"

text \<open>\<^verbatim>\<open>(x or "")\<close>\<close>

definition or_empty :: "string option \<Rightarrow> string" where
  "or_empty x = (case x of None \<Rightarrow> [] | Some s \<Rightarrow> s)"

text \<open>Line 125: the set of allowed departments of one row.\<close>

definition parse_allowed :: "string \<Rightarrow> string set" where
  "parse_allowed dep_raw =
     (if dep_raw = ''*'' then {''*''}
      else set (map strip (filter (\<lambda>d. strip d \<noteq> []) (split_comma dep_raw))))"

text \<open>Lines 116 to 130: the loop over the rows, \<open>i\<close> counting from 2, \<open>roles\<close> the
  dict built so far.\<close>

fun read_policy_rows ::
  "csv_row list \<Rightarrow> nat \<Rightarrow> (string \<rightharpoonup> PolicyRole) \<Rightarrow> error + (string \<rightharpoonup> PolicyRole)" where
  "read_policy_rows [] i roles = Inr roles"
| "read_policy_rows (r # rs) i roles =
     (let role = strip (or_empty (r ''role'')) in
      if role = [] then Inl (EmptyRole i)
      else
        let dep_raw = strip (or_empty (r ''department_allowed'')) in
        if dep_raw = [] then Inl (DepartmentAllowedEmpty i)
        else
          let allowed = parse_allowed dep_raw in
          read_policy_rows rs (Suc i)
            (roles(role \<mapsto>
               \<lparr>pr_role = role, allowed_departments = allowed,
                description = strip (or_empty (r ''description''))\<rparr>)))"

definition read_policy_roles ::
  "string list option \<Rightarrow> csv_row list \<Rightarrow> error + (string \<rightharpoonup> PolicyRole)" where
  "read_policy_roles fieldnames rows =
     (let required = [''department_allowed'', ''description'', ''role''];
          present = (case fieldnames of None \<Rightarrow> [] | Some fs \<Rightarrow> fs);
          missing = filter (\<lambda>c. c \<notin> set present) required
      in if missing \<noteq> [] then Inl (MissingColumns missing)
         else read_policy_rows rows 2 Map.empty)"

section \<open>Validation logic\<close>

subsection \<open>\<^verbatim>\<open>find_duplicates\<close>\<close>

fun find_duplicates_loop ::
  "AccessRow list \<Rightarrow> (string \<times> string) set \<Rightarrow> (string \<times> string) set \<Rightarrow> (string \<times> string) set" where
  "find_duplicates_loop [] seen dups = dups"
| "find_duplicates_loop (r # rows) seen dups =
     (let key = (user_id r, role r) in
      if key \<in> seen then find_duplicates_loop rows seen (insert key dups)
      else find_duplicates_loop rows (insert key seen) dups)"

definition find_duplicates :: "AccessRow list \<Rightarrow> (string \<times> string) set" where
  "find_duplicates rows = find_duplicates_loop rows {} {}"

subsection \<open>\<^verbatim>\<open>review_access\<close>\<close>

text \<open>The constructor call \<^verbatim>\<open>Violation(user_id=r.user_id, ..., issue=..., severity=...,
  details=...)\<close> that every rule repeats.\<close>

definition violation :: "AccessRow \<Rightarrow> string \<Rightarrow> string \<Rightarrow> string \<Rightarrow> Violation" where
  "violation r i s d =
     \<lparr>v_user_id = user_id r, v_user_name = user_name r, v_department = department r,
      v_role = role r, issue = i, severity = s, details = d\<rparr>"

text \<open>The three f-strings of the \<^verbatim>\<open>details\<close>: lines 192 and 193, line 208,
  line 249. \<^verbatim>\<open>sorted\<close> of a set of strings is the list of its elements in
  ascending lexicographic order.\<close>

definition role_not_allowed_details :: "AccessRow \<Rightarrow> PolicyRole \<Rightarrow> string" where
  "role_not_allowed_details r policy =
     ''Role '' @ [CHR 0x27] @ role r @ [CHR 0x27] @ '' allowed only for departments: ''
     @ join '', '' (sorted_list_of_set (allowed_departments policy))"

definition invalid_status_details :: "AccessRow \<Rightarrow> string" where
  "invalid_status_details r =
     ''Status must be '' @ [CHR 0x27] @ ''active'' @ [CHR 0x27] @ '' or '' @ [CHR 0x27]
     @ ''inactive'' @ [CHR 0x27] @ '' (got '' @ [CHR 0x27] @ status r @ [CHR 0x27] @ '').''"

definition stale_details :: "int \<Rightarrow> int \<Rightarrow> string" where
  "stale_details days stale_days =
     ''Last login '' @ str_int days @ '' days ago; threshold is '' @ str_int stale_days
     @ '' days.''"

text \<open>
  \<^verbatim>\<open>datetime.today()\<close> reads the wall clock. A run of \<^verbatim>\<open>review_access\<close> is given
  the clock as the function \<open>today\<close> from the number of earlier readings in this run to
  the instant read; the body of the loop takes the number \<open>k\<close> of readings made so far
  and returns it updated.

  \<open>review_row\<close> is the body of the loop of lines 162 to 251 for one row \<open>r\<close>: the
  violations it appends, in the order it appends them.
\<close>

definition review_row ::
  "(string \<times> string) set \<Rightarrow> datetime \<Rightarrow> int \<Rightarrow> (string \<rightharpoonup> PolicyRole) \<Rightarrow> (nat \<Rightarrow> datetime) \<Rightarrow>
   AccessRow \<Rightarrow> nat \<Rightarrow> Violation list \<times> nat" where
  "review_row duplicate_pairs stale_cutoff stale_days policy_roles today r k =
     (case policy_roles (role r) of
        None \<Rightarrow>
          ([violation r ''UNKNOWN_ROLE'' ''HIGH'' ''Role not found in policy catalog.''], k)
      | Some policy \<Rightarrow>
          (let v2 =
                 (if ''*'' \<notin> allowed_departments policy
                     \<and> department r \<notin> allowed_departments policy
                  then [violation r ''ROLE_NOT_ALLOWED_FOR_DEPARTMENT'' ''HIGH''
                          (role_not_allowed_details r policy)]
                  else []);
               v3 =
                 (if status r \<notin> {''active'', ''inactive''}
                  then [violation r ''INVALID_STATUS'' ''MEDIUM'' (invalid_status_details r)]
                  else if status r = ''inactive''
                  then [violation r ''INACTIVE_USER_HAS_ACCESS'' ''HIGH''
                          ''User is inactive but still assigned access.'']
                  else []);
               v4 =
                 (if (user_id r, role r) \<in> duplicate_pairs
                  then [violation r ''DUPLICATE_USER_ROLE_ENTRY'' ''LOW''
                          ''Duplicate user-role assignment found.'']
                  else [])
           in case last_login r of
                None \<Rightarrow> (v2 @ v3 @ v4, k)
              | Some l \<Rightarrow>
                  if l < stale_cutoff \<and> status r = ''active''
                  then (v2 @ v3 @ v4 @
                        [violation r ''STALE_ACCOUNT'' ''LOW''
                           (stale_details (days_between (today k) l) stale_days)],
                        Suc k)
                  else (v2 @ v3 @ v4, k)))"

text \<open>The loop: \<open>violations\<close> is the list built so far.\<close>

fun review_loop ::
  "(string \<times> string) set \<Rightarrow> datetime \<Rightarrow> int \<Rightarrow> (string \<rightharpoonup> PolicyRole) \<Rightarrow> (nat \<Rightarrow> datetime) \<Rightarrow>
   AccessRow list \<Rightarrow> Violation list \<Rightarrow> nat \<Rightarrow> Violation list \<times> nat" where
  "review_loop duplicate_pairs stale_cutoff stale_days policy_roles today [] violations k =
     (violations, k)"
| "review_loop duplicate_pairs stale_cutoff stale_days policy_roles today (r # rs) violations k =
     (case review_row duplicate_pairs stale_cutoff stale_days policy_roles today r k of
        (vs, k') \<Rightarrow>
          review_loop duplicate_pairs stale_cutoff stale_days policy_roles today rs
            (violations @ vs) k')"

text \<open>Line 160 reads the clock first (reading 0); the loop starts with one reading made.\<close>

definition stale_cutoff_of :: "datetime \<Rightarrow> int \<Rightarrow> error + datetime" where
  "stale_cutoff_of now stale_days =
     (case timedelta_days stale_days of
        Inl e \<Rightarrow> Inl e
      | Inr d \<Rightarrow> datetime_sub now d)"

definition review_access ::
  "AccessRow list \<Rightarrow> (string \<rightharpoonup> PolicyRole) \<Rightarrow> int \<Rightarrow> (nat \<Rightarrow> datetime) \<Rightarrow> error + Violation list" where
  "review_access access_rows policy_roles stale_days today =
     (let duplicate_pairs = find_duplicates access_rows in
      case stale_cutoff_of (today 0) stale_days of
        Inl e \<Rightarrow> Inl e
      | Inr stale_cutoff \<Rightarrow>
          Inr (fst (review_loop duplicate_pairs stale_cutoff stale_days policy_roles today
                      access_rows [] 1)))"

section \<open>Notions the properties are stated with\<close>

text \<open>A rule fires in a list of violations when the list holds a violation of that
  issue kind.\<close>

definition fires :: "string \<Rightarrow> Violation list \<Rightarrow> bool" where
  "fires i vs = (i \<in> set (map issue vs))"

text \<open>The order in which the body of the loop tests the rules.\<close>

definition rule_order :: "string list" where
  "rule_order =
     [''UNKNOWN_ROLE'', ''ROLE_NOT_ALLOWED_FOR_DEPARTMENT'', ''INVALID_STATUS'',
      ''INACTIVE_USER_HAS_ACCESS'', ''DUPLICATE_USER_ROLE_ENTRY'', ''STALE_ACCOUNT'']"

text \<open>The key of a row in \<^verbatim>\<open>find_duplicates\<close>.\<close>

definition row_key :: "AccessRow \<Rightarrow> string \<times> string" where
  "row_key r = (user_id r, role r)"

text \<open>Two clocks: one that stands still at \<open>now\<close>, one that has advanced by a day at
  each reading.\<close>

definition frozen_clock :: "datetime \<Rightarrow> nat \<Rightarrow> datetime" where
  "frozen_clock now n = now"

definition ticking_clock :: "datetime \<Rightarrow> nat \<Rightarrow> datetime" where
  "ticking_clock now n = now + int n * us_per_day"

subsection \<open>Concrete inputs\<close>

text \<open>The catalog and the entries of the end-to-end examples: role \<open>analyst\<close> allowed
  for finance and ops, role \<open>viewer\<close> allowed everywhere; the run takes place on
  2026-11-04 at noon (day 739923 after 0001-01-01) and the entries last logged in on
  that day at midnight, except \<open>entry_U4\<close> and \<open>entry_U6\<close>, who last logged in on
  2026-01-01, and \<open>entry_U5\<close>, who never did.\<close>

definition example_now :: datetime where
  "example_now = 739923 * us_per_day + 43200000000"

definition example_catalog :: "string \<rightharpoonup> PolicyRole" where
  "example_catalog =
     [''analyst'' \<mapsto>
        \<lparr>pr_role = ''analyst'', allowed_departments = {''finance'', ''ops''},
         description = ''Financial analyst''\<rparr>,
      ''viewer'' \<mapsto>
        \<lparr>pr_role = ''viewer'', allowed_departments = {''*''},
         description = ''Read-only''\<rparr>]"

definition entry_U1 :: AccessRow where
  "entry_U1 =
     \<lparr>user_id = ''U1'', user_name = ''Ann'', department = ''sales'', role = ''analyst'',
      status = ''active'', last_login = Some (739923 * us_per_day)\<rparr>"

definition entry_U2 :: AccessRow where
  "entry_U2 =
     \<lparr>user_id = ''U2'', user_name = ''Bob'', department = ''finance'', role = ''ghost'',
      status = ''inactive'', last_login = Some (739923 * us_per_day)\<rparr>"

definition entry_U3 :: AccessRow where
  "entry_U3 =
     \<lparr>user_id = ''U3'', user_name = ''Cy'', department = ''ops'', role = ''viewer'',
      status = ''active'', last_login = Some (739923 * us_per_day)\<rparr>"

definition entry_U4 :: AccessRow where
  "entry_U4 =
     \<lparr>user_id = ''U4'', user_name = ''Di'', department = ''sales'', role = ''analyst'',
      status = ''active'', last_login = Some (739616 * us_per_day)\<rparr>"

definition entry_U5 :: AccessRow where
  "entry_U5 =
     \<lparr>user_id = ''U5'', user_name = ''Ed'', department = ''sales'', role = ''analyst'',
      status = ''suspended'', last_login = None\<rparr>"

definition entry_U6 :: AccessRow where
  "entry_U6 =
     \<lparr>user_id = ''U6'', user_name = ''Flo'', department = ''ops'', role = ''viewer'',
      status = ''active'', last_login = Some (739616 * us_per_day)\<rparr>"

text \<open>A policy file with the three columns, and one of its rows.\<close>

definition policy_header :: "string list option" where
  "policy_header = Some [''role'', ''department_allowed'', ''description'']"

definition policy_row :: "string \<Rightarrow> string \<Rightarrow> string \<Rightarrow> csv_row" where
  "policy_row r d x = [''role'' \<mapsto> r, ''department_allowed'' \<mapsto> d, ''description'' \<mapsto> x]"

lemmas example_defs =
  example_now_def example_catalog_def entry_U1_def entry_U2_def entry_U3_def entry_U4_def
  entry_U5_def entry_U6_def frozen_clock_def ticking_clock_def

lemmas policy_defs =
  read_policy_roles_def parse_allowed_def strip_def isspace_def or_empty_def
  policy_header_def policy_row_def Let_def

lemmas review_defs =
  review_access_def find_duplicates_def stale_cutoff_of_def timedelta_days_def
  datetime_sub_def datetime_max_def us_per_day_def review_row_def violation_def
  role_not_allowed_details_def invalid_status_details_def stale_details_def
  days_between_def str_int_def str_nat.simps

section \<open>The body of the loop\<close>

lemma sorted_example_departments:
  "sorted_list_of_set {''finance'', ''ops''} = [''finance'', ''ops'']"
  by (simp add: sorted_list_of_set.fold_insort_key.insert_remove insort_key.simps)

lemma violation_sel [simp]:
  "issue (violation r i s d) = i"
  "severity (violation r i s d) = s"
  "details (violation r i s d) = d"
  "v_user_id (violation r i s d) = user_id r"
  "v_user_name (violation r i s d) = user_name r"
  "v_department (violation r i s d) = department r"
  "v_role (violation r i s d) = role r"
  by (simp_all add: violation_def)

lemma review_row_unknown:
  "P (role r) = None \<Longrightarrow>
   review_row D c sd P t r k =
     ([violation r ''UNKNOWN_ROLE'' ''HIGH'' ''Role not found in policy catalog.''], k)"
  by (simp add: review_row_def)

text \<open>The violations of a row whose role is in the catalog, the last rule written as one
  conditional.\<close>

lemma review_row_known:
  assumes "P (role r) = Some p"
  shows "fst (review_row D c sd P t r k) =
     (if ''*'' \<notin> allowed_departments p \<and> department r \<notin> allowed_departments p
      then [violation r ''ROLE_NOT_ALLOWED_FOR_DEPARTMENT'' ''HIGH'' (role_not_allowed_details r p)]
      else [])
     @ (if status r \<notin> {''active'', ''inactive''}
        then [violation r ''INVALID_STATUS'' ''MEDIUM'' (invalid_status_details r)]
        else if status r = ''inactive''
        then [violation r ''INACTIVE_USER_HAS_ACCESS'' ''HIGH''
                ''User is inactive but still assigned access.'']
        else [])
     @ (if (user_id r, role r) \<in> D
        then [violation r ''DUPLICATE_USER_ROLE_ENTRY'' ''LOW''
                ''Duplicate user-role assignment found.'']
        else [])
     @ (if (\<exists>l. last_login r = Some l \<and> l < c) \<and> status r = ''active''
        then [violation r ''STALE_ACCOUNT'' ''LOW''
                (stale_details (days_between (t k) (the (last_login r))) sd)]
        else [])"
proof (cases "last_login r")
  case None
  with assms show ?thesis by (simp add: review_row_def Let_def)
next
  case (Some l)
  with assms show ?thesis by (simp add: review_row_def Let_def)
qed

lemma review_row_issues:
  "map issue (fst (review_row D c sd P t r k)) =
     (case P (role r) of
        None \<Rightarrow> [''UNKNOWN_ROLE'']
      | Some p \<Rightarrow>
          (if ''*'' \<notin> allowed_departments p \<and> department r \<notin> allowed_departments p
           then [''ROLE_NOT_ALLOWED_FOR_DEPARTMENT''] else [])
          @ (if status r \<notin> {''active'', ''inactive''} then [''INVALID_STATUS'']
             else if status r = ''inactive'' then [''INACTIVE_USER_HAS_ACCESS''] else [])
          @ (if (user_id r, role r) \<in> D then [''DUPLICATE_USER_ROLE_ENTRY''] else [])
          @ (if (\<exists>l. last_login r = Some l \<and> l < c) \<and> status r = ''active''
             then [''STALE_ACCOUNT''] else []))"
proof (cases "P (role r)")
  case None
  then show ?thesis by (simp add: review_row_unknown)
next
  case (Some p)
  then show ?thesis by (simp add: review_row_known)
qed

text \<open>Every violation of a row carries the row's own identity, and its severity is
  fixed by its issue kind.\<close>

lemma review_row_ident:
  assumes "v \<in> set (fst (review_row D c sd P t r k))"
  shows "v_user_id v = user_id r \<and> v_user_name v = user_name r
         \<and> v_department v = department r \<and> v_role v = role r"
proof (cases "P (role r)")
  case None
  with assms show ?thesis by (simp add: review_row_unknown)
next
  case (Some p)
  with assms show ?thesis by (auto simp: review_row_known split: if_splits)
qed

lemma review_row_severity:
  assumes "v \<in> set (fst (review_row D c sd P t r k))"
  shows "severity v =
     (if issue v = ''INVALID_STATUS'' then ''MEDIUM''
      else if issue v \<in> {''DUPLICATE_USER_ROLE_ENTRY'', ''STALE_ACCOUNT''} then ''LOW''
      else ''HIGH'')"
proof (cases "P (role r)")
  case None
  with assms show ?thesis by (simp add: review_row_unknown)
next
  case (Some p)
  with assms show ?thesis by (auto simp: review_row_known split: if_splits)
qed

section \<open>The loop\<close>

lemma review_loop_fst:
  "fst (review_loop D c sd P t rs acc k) = acc @ fst (review_loop D c sd P t rs [] k)"
proof (induction rs arbitrary: acc k)
  case Nil
  show ?case by simp
next
  case (Cons r rs)
  show ?case
    by (simp add: split_beta) (metis Cons.IH append_assoc)
qed

lemma review_loop_Cons:
  "fst (review_loop D c sd P t (r # rs) [] k) =
     fst (review_row D c sd P t r k)
     @ fst (review_loop D c sd P t rs [] (snd (review_row D c sd P t r k)))"
  by (simp add: split_beta review_loop_fst [of _ _ _ _ _ _ "fst (review_row D c sd P t r k)"])

text \<open>A run returns exactly when line 160 does not overflow, that is, when the
  threshold is a number of days that a \<^verbatim>\<open>timedelta\<close> can hold and the cutoff is a
  date of the calendar; the loop itself raises nothing.\<close>

lemma review_access_Inr:
  "review_access rows P sd t = Inr vs \<longleftrightarrow>
     (\<exists>c. stale_cutoff_of (t 0) sd = Inr c
        \<and> vs = fst (review_loop (find_duplicates rows) c sd P t rows [] 1))"
  by (auto simp: review_access_def split: sum.splits)

lemma stale_cutoff_of_Inr:
  "stale_cutoff_of now sd = Inr c \<longleftrightarrow>
     - 999999999 \<le> sd \<and> sd \<le> 999999999 \<and> c = now - sd * us_per_day
     \<and> 0 \<le> c \<and> c \<le> datetime_max"
  by (auto simp: stale_cutoff_of_def timedelta_days_def datetime_sub_def)

lemma review_access_returns_iff:
  "(\<exists>vs. review_access rows P sd t = Inr vs) \<longleftrightarrow>
     - 999999999 \<le> sd \<and> sd \<le> 999999999
     \<and> 0 \<le> t 0 - sd * us_per_day \<and> t 0 - sd * us_per_day \<le> datetime_max"
  by (auto simp: review_access_Inr stale_cutoff_of_Inr)

lemma review_loop_unknown_role:
  assumes "P \<rho> = None"
  shows "filter (\<lambda>v. v_role v = \<rho>) (fst (review_loop D c sd P t rs [] k)) =
     map (\<lambda>r. violation r ''UNKNOWN_ROLE'' ''HIGH'' ''Role not found in policy catalog.'')
       (filter (\<lambda>r. role r = \<rho>) rs)"
proof (induction rs arbitrary: k)
  case Nil
  show ?case by simp
next
  case (Cons r rs)
  have "filter (\<lambda>v. v_role v = \<rho>) (fst (review_row D c sd P t r k)) =
      (if role r = \<rho>
       then [violation r ''UNKNOWN_ROLE'' ''HIGH'' ''Role not found in policy catalog.'']
       else [])"
  proof (cases "role r = \<rho>")
    case True
    with assms show ?thesis by (simp add: review_row_unknown)
  next
    case False
    then have "\<forall>v \<in> set (fst (review_row D c sd P t r k)). v_role v \<noteq> \<rho>"
      using review_row_ident by metis
    with False show ?thesis by (simp add: filter_empty_conv)
  qed
  then show ?case by (simp add: review_loop_Cons Cons.IH del: review_loop.simps)
qed

section \<open>Unknown roles\<close>

text \<open>
  C1. An entry whose role is no key of the policy catalog produces exactly one
  violation, of issue kind UNKNOWN_ROLE and severity HIGH, and the body of the loop ends
  there for that entry: no other rule fires and the clock is not read. In the output of
  a whole run, the violations that carry such a role are, in order, exactly one
  UNKNOWN_ROLE violation for each entry of the batch with that role.
\<close>

theorem unknown_role_single_violation:
  assumes "policy_roles (role r) = None"
  shows "review_row duplicate_pairs stale_cutoff stale_days policy_roles today r k =
           ([violation r ''UNKNOWN_ROLE'' ''HIGH'' ''Role not found in policy catalog.''], k)
         \<and> (\<forall>rows vs. review_access rows policy_roles stale_days today = Inr vs \<longrightarrow>
               filter (\<lambda>v. v_role v = role r) vs =
               map (\<lambda>r'. violation r' ''UNKNOWN_ROLE'' ''HIGH''
                            ''Role not found in policy catalog.'')
                 (filter (\<lambda>r'. role r' = role r) rows))"
  using assms by (auto simp: review_row_unknown review_access_Inr review_loop_unknown_role)

theorem unknown_role_single_violation_witness:
  "example_catalog (role entry_U2) = None
   \<and> review_row {} 0 90 example_catalog (frozen_clock example_now) entry_U2 1 =
       ([violation entry_U2 ''UNKNOWN_ROLE'' ''HIGH'' ''Role not found in policy catalog.''], 1)
   \<and> review_access [entry_U2, entry_U3, entry_U2] example_catalog 90 (frozen_clock example_now) =
       Inr [violation entry_U2 ''UNKNOWN_ROLE'' ''HIGH'' ''Role not found in policy catalog.'',
            violation entry_U2 ''UNKNOWN_ROLE'' ''HIGH'' ''Role not found in policy catalog.'']"
proof -
  have h: "example_catalog (role entry_U2) = None"
    by (simp add: example_defs)
  have run: "review_access [entry_U2, entry_U3, entry_U2] example_catalog 90
       (frozen_clock example_now) =
       Inr [violation entry_U2 ''UNKNOWN_ROLE'' ''HIGH'' ''Role not found in policy catalog.'',
            violation entry_U2 ''UNKNOWN_ROLE'' ''HIGH'' ''Role not found in policy catalog.'']"
    by (simp add: review_defs example_defs)
  from unknown_role_single_violation
         [where policy_roles = example_catalog and r = entry_U2 and duplicate_pairs = "{}"
            and stale_cutoff = 0 and stale_days = 90 and today = "frozen_clock example_now"
            and k = 1]
  show ?thesis using h run by blast
qed

section \<open>Duplicate entries\<close>

text \<open>The loop of \<^verbatim>\<open>find_duplicates\<close> for any \<open>seen\<close> and \<open>dups\<close>: a key ends up in
  the result when it was there already, when it was seen before and occurs again, or
  when it occurs twice among the rows left.\<close>

lemma find_duplicates_loop_eq:
  "find_duplicates_loop rows seen dups =
     dups \<union> {p. (p \<in> seen \<and> 1 \<le> count_list (map row_key rows) p)
                 \<or> 2 \<le> count_list (map row_key rows) p}"
proof (induction rows arbitrary: seen dups)
  case Nil
  show ?case by simp
next
  case (Cons r rows)
  show ?case
  proof (cases "(user_id r, role r) \<in> seen")
    case True
    then show ?thesis by (auto simp: Cons.IH row_key_def)
  next
    case False
    then show ?thesis by (auto simp: Cons.IH row_key_def)
  qed
qed

lemma find_duplicates_eq:
  "find_duplicates rows = {p. 2 \<le> count_list (map row_key rows) p}"
  by (simp add: find_duplicates_def find_duplicates_loop_eq)

lemma count_list_mset: "count_list xs x = count (mset xs) x"
  by (induction xs) auto

lemma find_duplicates_mset:
  assumes "mset rows' = mset rows"
  shows "find_duplicates rows' = find_duplicates rows"
proof -
  have "mset (map row_key rows') = mset (map row_key rows)"
    using assms by (metis mset_map)
  then show ?thesis by (simp add: find_duplicates_eq count_list_mset)
qed

lemma review_row_duplicates:
  assumes "P \<rho> \<noteq> None"
  shows "filter (\<lambda>v. issue v = ''DUPLICATE_USER_ROLE_ENTRY'' \<and> v_user_id v = u \<and> v_role v = \<rho>)
           (fst (review_row D c sd P t r k)) =
         (if row_key r = (u, \<rho>) \<and> (u, \<rho>) \<in> D
          then [violation r ''DUPLICATE_USER_ROLE_ENTRY'' ''LOW''
                  ''Duplicate user-role assignment found.'']
          else [])"
proof (cases "row_key r = (u, \<rho>)")
  case True
  with assms obtain p where "P (role r) = Some p" by (auto simp: row_key_def)
  with True show ?thesis by (simp add: review_row_known row_key_def)
next
  case False
  then have "\<forall>v \<in> set (fst (review_row D c sd P t r k)). \<not> (v_user_id v = u \<and> v_role v = \<rho>)"
    using review_row_ident [of _ D c sd P t r k] by (auto simp: row_key_def)
  with False show ?thesis by (auto simp: filter_empty_conv)
qed

lemma review_loop_duplicates:
  assumes "P \<rho> \<noteq> None"
  shows "length (filter (\<lambda>v. issue v = ''DUPLICATE_USER_ROLE_ENTRY'' \<and> v_user_id v = u \<and> v_role v = \<rho>)
           (fst (review_loop D c sd P t rs [] k))) =
         (if (u, \<rho>) \<in> D then count_list (map row_key rs) (u, \<rho>) else 0)"
proof (induction rs arbitrary: k)
  case Nil
  show ?case by simp
next
  case (Cons r rs)
  show ?case
    by (simp add: review_loop_Cons Cons.IH review_row_duplicates [where P = P and \<rho> = \<rho>, OF assms]
        del: review_loop.simps)
qed

text \<open>
  C4. In the output of a run, for a pair \<open>(u, \<rho>)\<close> of user id and role whose role is
  in the catalog and that occurs \<open>k\<close> times among the keys of the batch, the number of
  DUPLICATE_USER_ROLE_ENTRY violations that carry the pair is \<open>k\<close> when \<open>2 \<le> k\<close> and
  none otherwise. \<^verbatim>\<open>find_duplicates\<close> returns the set of the pairs of multiplicity at
  least two; it returns the same set for every reordering of the batch, and the empty
  set for the empty batch.
\<close>

theorem duplicate_violations_count:
  assumes "review_access rows policy_roles stale_days today = Inr vs"
    and "policy_roles \<rho> \<noteq> None"
  shows "length (filter (\<lambda>v. issue v = ''DUPLICATE_USER_ROLE_ENTRY''
                            \<and> v_user_id v = u \<and> v_role v = \<rho>) vs) =
           (if 2 \<le> count_list (map row_key rows) (u, \<rho>)
            then count_list (map row_key rows) (u, \<rho>) else 0)
         \<and> find_duplicates rows = {p. 2 \<le> count_list (map row_key rows) p}
         \<and> (\<forall>rows'. mset rows' = mset rows \<longrightarrow> find_duplicates rows' = find_duplicates rows)
         \<and> find_duplicates [] = {}"
proof -
  from assms(1) obtain c where
    vs: "vs = fst (review_loop (find_duplicates rows) c stale_days policy_roles today rows [] 1)"
    by (auto simp: review_access_Inr)
  have "length (filter (\<lambda>v. issue v = ''DUPLICATE_USER_ROLE_ENTRY''
                            \<and> v_user_id v = u \<and> v_role v = \<rho>) vs) =
           (if 2 \<le> count_list (map row_key rows) (u, \<rho>)
            then count_list (map row_key rows) (u, \<rho>) else 0)"
    unfolding vs review_loop_duplicates [where P = policy_roles and \<rho> = \<rho>, OF assms(2)] by (simp add: find_duplicates_eq)
  moreover have "find_duplicates [] = {}"
    by (simp add: find_duplicates_def)
  ultimately show ?thesis
    using find_duplicates_eq find_duplicates_mset by blast
qed

theorem duplicate_violations_count_witness:
  "review_access [entry_U3, entry_U2, entry_U3] example_catalog 90 (frozen_clock example_now) =
     Inr [violation entry_U3 ''DUPLICATE_USER_ROLE_ENTRY'' ''LOW''
            ''Duplicate user-role assignment found.'',
          violation entry_U2 ''UNKNOWN_ROLE'' ''HIGH'' ''Role not found in policy catalog.'',
          violation entry_U3 ''DUPLICATE_USER_ROLE_ENTRY'' ''LOW''
            ''Duplicate user-role assignment found.'']
   \<and> example_catalog ''viewer'' \<noteq> None
   \<and> length (filter (\<lambda>v. issue v = ''DUPLICATE_USER_ROLE_ENTRY''
                         \<and> v_user_id v = ''U3'' \<and> v_role v = ''viewer'')
         [violation entry_U3 ''DUPLICATE_USER_ROLE_ENTRY'' ''LOW''
            ''Duplicate user-role assignment found.'',
          violation entry_U2 ''UNKNOWN_ROLE'' ''HIGH'' ''Role not found in policy catalog.'',
          violation entry_U3 ''DUPLICATE_USER_ROLE_ENTRY'' ''LOW''
            ''Duplicate user-role assignment found.'']) = 2
   \<and> find_duplicates [entry_U2, entry_U3, entry_U3] = find_duplicates [entry_U3, entry_U2, entry_U3]"
proof -
  have run: "review_access [entry_U3, entry_U2, entry_U3] example_catalog 90
       (frozen_clock example_now) =
     Inr [violation entry_U3 ''DUPLICATE_USER_ROLE_ENTRY'' ''LOW''
            ''Duplicate user-role assignment found.'',
          violation entry_U2 ''UNKNOWN_ROLE'' ''HIGH'' ''Role not found in policy catalog.'',
          violation entry_U3 ''DUPLICATE_USER_ROLE_ENTRY'' ''LOW''
            ''Duplicate user-role assignment found.'']"
    by (simp add: review_defs example_defs)
  have h: "example_catalog ''viewer'' \<noteq> None"
    by (simp add: example_defs)
  have k: "count_list (map row_key [entry_U3, entry_U2, entry_U3]) (''U3'', ''viewer'') = 2"
    by (simp add: row_key_def example_defs)
  have m: "mset [entry_U2, entry_U3, entry_U3] = mset [entry_U3, entry_U2, entry_U3]"
    by simp
  from duplicate_violations_count [OF run h, of "''U3''"]
  show ?thesis using run h k m by simp
qed

section \<open>Order of the output\<close>

lemma subseq_if_Cons: "subseq xs ys \<Longrightarrow> subseq ((if b then [y] else []) @ xs) (y # ys)"
  by auto

lemma review_row_subseq:
  "subseq (map issue (fst (review_row D c sd P t r k))) rule_order"
proof (cases "P (role r)")
  case None
  then show ?thesis by (simp add: review_row_issues rule_order_def)
next
  case (Some p)
  have st: "subseq (if status r \<notin> {''active'', ''inactive''} then [''INVALID_STATUS'']
             else if status r = ''inactive'' then [''INACTIVE_USER_HAS_ACCESS''] else [])
             [''INVALID_STATUS'', ''INACTIVE_USER_HAS_ACCESS'']"
    by simp
  have tl: "subseq ((if (user_id r, role r) \<in> D then [''DUPLICATE_USER_ROLE_ENTRY''] else [])
          @ (if (\<exists>l. last_login r = Some l \<and> l < c) \<and> status r = ''active''
             then [''STALE_ACCOUNT''] else [])) [''DUPLICATE_USER_ROLE_ENTRY'', ''STALE_ACCOUNT'']"
    by (intro subseq_if_Cons) simp
  have "subseq (map issue (fst (review_row D c sd P t r k)))
     ([''ROLE_NOT_ALLOWED_FOR_DEPARTMENT''] @ [''INVALID_STATUS'', ''INACTIVE_USER_HAS_ACCESS'']
       @ [''DUPLICATE_USER_ROLE_ENTRY'', ''STALE_ACCOUNT''])"
    unfolding review_row_issues Some option.case
    by (intro list_emb_append_mono st tl) simp
  then show ?thesis by (auto simp: rule_order_def)
qed

lemma review_loop_segments:
  "\<exists>ks. length ks = length rs \<and>
     fst (review_loop D c sd P t rs [] k) =
       concat (map2 (\<lambda>r k. fst (review_row D c sd P t r k)) rs ks)"
proof (induction rs arbitrary: k)
  case Nil
  show ?case by simp
next
  case (Cons r rs)
  from Cons.IH [of "snd (review_row D c sd P t r k)"]
  obtain ks where ks: "length ks = length rs"
    "fst (review_loop D c sd P t rs [] (snd (review_row D c sd P t r k))) =
       concat (map2 (\<lambda>r k. fst (review_row D c sd P t r k)) rs ks)"
    by blast
  show ?case
    by (rule exI [of _ "k # ks"]) (simp add: ks review_loop_Cons del: review_loop.simps)
qed

text \<open>
  C6. The output of a run is the concatenation, in the order of the batch, of what the
  body of the loop appends for each entry (\<open>ks\<close> lists, entry by entry, the number of
  clock readings made before the entry is reached), and the issue kinds of the
  violations of one entry are a subsequence of the fixed order of the rules.
\<close>

theorem review_access_order:
  assumes "review_access rows policy_roles stale_days today = Inr vs"
  shows "\<exists>stale_cutoff ks.
           stale_cutoff_of (today 0) stale_days = Inr stale_cutoff
           \<and> length ks = length rows
           \<and> vs = concat (map2 (\<lambda>r k. fst (review_row (find_duplicates rows) stale_cutoff
                                             stale_days policy_roles today r k)) rows ks)
           \<and> (\<forall>r k. subseq (map issue (fst (review_row (find_duplicates rows) stale_cutoff
                                             stale_days policy_roles today r k))) rule_order)"
proof -
  from assms obtain c where c: "stale_cutoff_of (today 0) stale_days = Inr c"
    and vs: "vs = fst (review_loop (find_duplicates rows) c stale_days policy_roles today rows [] 1)"
    by (auto simp: review_access_Inr)
  from review_loop_segments [of rows "find_duplicates rows" c stale_days policy_roles today 1]
  obtain ks where "length ks = length rows"
    "vs = concat (map2 (\<lambda>r k. fst (review_row (find_duplicates rows) c
                                             stale_days policy_roles today r k)) rows ks)"
    unfolding vs by blast
  with c show ?thesis using review_row_subseq by blast
qed

theorem review_access_order_witness:
  "review_access [entry_U4, entry_U5, entry_U4] example_catalog 90 (ticking_clock example_now) =
     Inr [violation entry_U4 ''ROLE_NOT_ALLOWED_FOR_DEPARTMENT'' ''HIGH''
            ''Role 'analyst' allowed only for departments: finance, ops'',
          violation entry_U4 ''DUPLICATE_USER_ROLE_ENTRY'' ''LOW''
            ''Duplicate user-role assignment found.'',
          violation entry_U4 ''STALE_ACCOUNT'' ''LOW''
            ''Last login 308 days ago; threshold is 90 days.'',
          violation entry_U5 ''ROLE_NOT_ALLOWED_FOR_DEPARTMENT'' ''HIGH''
            ''Role 'analyst' allowed only for departments: finance, ops'',
          violation entry_U5 ''INVALID_STATUS'' ''MEDIUM''
            ''Status must be 'active' or 'inactive' (got 'suspended').'',
          violation entry_U4 ''ROLE_NOT_ALLOWED_FOR_DEPARTMENT'' ''HIGH''
            ''Role 'analyst' allowed only for departments: finance, ops'',
          violation entry_U4 ''DUPLICATE_USER_ROLE_ENTRY'' ''LOW''
            ''Duplicate user-role assignment found.'',
          violation entry_U4 ''STALE_ACCOUNT'' ''LOW''
            ''Last login 309 days ago; threshold is 90 days.'']
   \<and> (\<exists>stale_cutoff ks.
         stale_cutoff_of (ticking_clock example_now 0) 90 = Inr stale_cutoff
         \<and> length ks = length [entry_U4, entry_U5, entry_U4]
         \<and> [violation entry_U4 ''ROLE_NOT_ALLOWED_FOR_DEPARTMENT'' ''HIGH''
               ''Role 'analyst' allowed only for departments: finance, ops'',
             violation entry_U4 ''DUPLICATE_USER_ROLE_ENTRY'' ''LOW''
               ''Duplicate user-role assignment found.'',
             violation entry_U4 ''STALE_ACCOUNT'' ''LOW''
               ''Last login 308 days ago; threshold is 90 days.'',
             violation entry_U5 ''ROLE_NOT_ALLOWED_FOR_DEPARTMENT'' ''HIGH''
               ''Role 'analyst' allowed only for departments: finance, ops'',
             violation entry_U5 ''INVALID_STATUS'' ''MEDIUM''
               ''Status must be 'active' or 'inactive' (got 'suspended').'',
             violation entry_U4 ''ROLE_NOT_ALLOWED_FOR_DEPARTMENT'' ''HIGH''
               ''Role 'analyst' allowed only for departments: finance, ops'',
             violation entry_U4 ''DUPLICATE_USER_ROLE_ENTRY'' ''LOW''
               ''Duplicate user-role assignment found.'',
             violation entry_U4 ''STALE_ACCOUNT'' ''LOW''
               ''Last login 309 days ago; threshold is 90 days.'']
           = concat (map2 (\<lambda>r k. fst (review_row (find_duplicates [entry_U4, entry_U5, entry_U4])
                                          stale_cutoff 90 example_catalog
                                          (ticking_clock example_now) r k))
                       [entry_U4, entry_U5, entry_U4] ks)
         \<and> (\<forall>r k. subseq (map issue (fst (review_row (find_duplicates [entry_U4, entry_U5, entry_U4])
                                          stale_cutoff 90 example_catalog
                                          (ticking_clock example_now) r k))) rule_order))"
  (is "?run \<and> ?order")
proof -
  have run: ?run
    by (simp add: review_defs example_defs sorted_example_departments)
  from review_access_order [OF run] have ?order .
  with run show ?thesis ..
qed

section \<open>Stale accounts\<close>

text \<open>
  C2. With the cutoff that line 160 computes from the reference date \<open>now\<close> and the
  threshold \<open>stale_days\<close>, the body of the loop produces a STALE_ACCOUNT violation for
  an entry exactly when the entry's role is in the catalog, its status is \<open>active\<close>, its
  last login is present and that date is strictly earlier than \<open>now\<close> minus
  \<open>stale_days\<close> days; such a violation has severity LOW; an entry without a last login
  never produces one.
\<close>

theorem stale_account_iff:
  assumes "stale_cutoff_of now stale_days = Inr stale_cutoff"
  shows "(fires ''STALE_ACCOUNT''
            (fst (review_row duplicate_pairs stale_cutoff stale_days policy_roles today r k)) \<longleftrightarrow>
          policy_roles (role r) \<noteq> None \<and> status r = ''active''
          \<and> (\<exists>l. last_login r = Some l \<and> l < now - stale_days * us_per_day))
         \<and> (\<forall>v \<in> set (fst (review_row duplicate_pairs stale_cutoff stale_days policy_roles
                               today r k)).
               issue v = ''STALE_ACCOUNT'' \<longrightarrow> severity v = ''LOW'')
         \<and> (last_login r = None \<longrightarrow>
               \<not> fires ''STALE_ACCOUNT''
                   (fst (review_row duplicate_pairs stale_cutoff stale_days policy_roles today r k)))"
proof -
  from assms have c: "stale_cutoff = now - stale_days * us_per_day"
    by (simp add: stale_cutoff_of_Inr)
  have "fires ''STALE_ACCOUNT''
            (fst (review_row duplicate_pairs stale_cutoff stale_days policy_roles today r k)) \<longleftrightarrow>
          policy_roles (role r) \<noteq> None \<and> status r = ''active''
          \<and> (\<exists>l. last_login r = Some l \<and> l < stale_cutoff)"
    by (simp add: fires_def review_row_issues split: option.splits)
  then show ?thesis
    unfolding c by (auto simp: review_row_severity)
qed

theorem stale_account_iff_witness:
  "stale_cutoff_of example_now 90 = Inr (739833 * us_per_day + 43200000000)
   \<and> fires ''STALE_ACCOUNT''
        (fst (review_row {} (739833 * us_per_day + 43200000000) 90 example_catalog
                (frozen_clock example_now) entry_U6 1))
   \<and> last_login entry_U5 = None
   \<and> \<not> fires ''STALE_ACCOUNT''
          (fst (review_row {} (739833 * us_per_day + 43200000000) 90 example_catalog
                  (frozen_clock example_now) entry_U5 1))"
proof -
  have h: "stale_cutoff_of example_now 90 = Inr (739833 * us_per_day + 43200000000)"
    by (simp add: stale_cutoff_of_Inr example_defs us_per_day_def datetime_max_def)
  have a: "example_catalog (role entry_U6) \<noteq> None \<and> status entry_U6 = ''active''
           \<and> (\<exists>l. last_login entry_U6 = Some l \<and> l < example_now - 90 * us_per_day)"
    by (simp add: example_defs entry_U6_def us_per_day_def)
  have b: "last_login entry_U5 = None"
    by (simp add: example_defs)
  from stale_account_iff
         [OF h, where duplicate_pairs = "{}" and policy_roles = example_catalog
            and today = "frozen_clock example_now" and r = entry_U6 and k = 1]
       stale_account_iff
         [OF h, where duplicate_pairs = "{}" and policy_roles = example_catalog
            and today = "frozen_clock example_now" and r = entry_U5 and k = 1]
  show ?thesis using h a b by blast
qed

section \<open>Departments\<close>

text \<open>
  C3. For an entry whose role is a key of the catalog, the body of the loop produces a
  ROLE_NOT_ALLOWED_FOR_DEPARTMENT violation exactly when the allowed departments of the
  matched policy contain neither the string \<open>*\<close> nor the entry's department; such a
  violation has severity HIGH.
\<close>

theorem role_not_allowed_iff:
  assumes "policy_roles (role r) = Some policy"
  shows "(fires ''ROLE_NOT_ALLOWED_FOR_DEPARTMENT''
            (fst (review_row duplicate_pairs stale_cutoff stale_days policy_roles today r k)) \<longleftrightarrow>
          ''*'' \<notin> allowed_departments policy \<and> department r \<notin> allowed_departments policy)
         \<and> (\<forall>v \<in> set (fst (review_row duplicate_pairs stale_cutoff stale_days policy_roles
                               today r k)).
               issue v = ''ROLE_NOT_ALLOWED_FOR_DEPARTMENT'' \<longrightarrow> severity v = ''HIGH'')"
  using assms by (auto simp: fires_def review_row_issues review_row_severity)

theorem role_not_allowed_iff_witness:
  "example_catalog (role entry_U1) =
     Some \<lparr>pr_role = ''analyst'', allowed_departments = {''finance'', ''ops''},
           description = ''Financial analyst''\<rparr>
   \<and> fires ''ROLE_NOT_ALLOWED_FOR_DEPARTMENT''
        (fst (review_row {} 0 90 example_catalog (frozen_clock example_now) entry_U1 1))
   \<and> example_catalog (role entry_U3) =
       Some \<lparr>pr_role = ''viewer'', allowed_departments = {''*''}, description = ''Read-only''\<rparr>
   \<and> \<not> fires ''ROLE_NOT_ALLOWED_FOR_DEPARTMENT''
          (fst (review_row {} 0 90 example_catalog (frozen_clock example_now) entry_U3 1))"
proof -
  have h1: "example_catalog (role entry_U1) =
     Some \<lparr>pr_role = ''analyst'', allowed_departments = {''finance'', ''ops''},
           description = ''Financial analyst''\<rparr>"
    by (simp add: example_defs)
  have h3: "example_catalog (role entry_U3) =
       Some \<lparr>pr_role = ''viewer'', allowed_departments = {''*''}, description = ''Read-only''\<rparr>"
    by (simp add: example_defs)
  have d: "department entry_U1 = ''sales''"
    by (simp add: example_defs)
  from role_not_allowed_iff
         [where policy_roles = example_catalog and r = entry_U1, OF h1, of "{}" 0 90
            "frozen_clock example_now" 1]
       role_not_allowed_iff
         [where policy_roles = example_catalog and r = entry_U3, OF h3, of "{}" 0 90
            "frozen_clock example_now" 1]
  show ?thesis using h1 h3 d by simp
qed

section \<open>Status rules\<close>

text \<open>
  C5, as amended. The violations of one entry never include both INVALID_STATUS and
  INACTIVE_USER_HAS_ACCESS. INVALID_STATUS fires exactly when the entry's role is in the
  catalog and its status is neither \<open>active\<close> nor \<open>inactive\<close>;
  INACTIVE_USER_HAS_ACCESS fires exactly when the entry's role is in the catalog and its
  status is \<open>inactive\<close>.
\<close>

theorem status_rules_exclusive:
  "\<not> (fires ''INVALID_STATUS''
          (fst (review_row duplicate_pairs stale_cutoff stale_days policy_roles today r k))
      \<and> fires ''INACTIVE_USER_HAS_ACCESS''
          (fst (review_row duplicate_pairs stale_cutoff stale_days policy_roles today r k)))
   \<and> (fires ''INVALID_STATUS''
          (fst (review_row duplicate_pairs stale_cutoff stale_days policy_roles today r k)) \<longleftrightarrow>
        policy_roles (role r) \<noteq> None \<and> status r \<noteq> ''active'' \<and> status r \<noteq> ''inactive'')
   \<and> (fires ''INACTIVE_USER_HAS_ACCESS''
          (fst (review_row duplicate_pairs stale_cutoff stale_days policy_roles today r k)) \<longleftrightarrow>
        policy_roles (role r) \<noteq> None \<and> status r = ''inactive'')"
proof (cases "policy_roles (role r)")
  case None
  then show ?thesis by (simp add: fires_def review_row_issues)
next
  case (Some p)
  then show ?thesis by (simp add: fires_def review_row_issues)
qed

text \<open>
  C5 as stated lets INACTIVE_USER_HAS_ACCESS fire for every entry whose status is
  \<open>inactive\<close>. The entry \<open>entry_U2\<close> is inactive and its role is not in the catalog:
  line 177 leaves the body of the loop before the status rules, and the run reports
  UNKNOWN_ROLE only.
\<close>

theorem inactive_iff_counterexample:
  "status entry_U2 = ''inactive''
   \<and> review_access [entry_U2] example_catalog 90 (frozen_clock example_now) =
       Inr [violation entry_U2 ''UNKNOWN_ROLE'' ''HIGH'' ''Role not found in policy catalog.'']
   \<and> \<not> fires ''INACTIVE_USER_HAS_ACCESS''
          [violation entry_U2 ''UNKNOWN_ROLE'' ''HIGH'' ''Role not found in policy catalog.'']"
  by (simp add: review_defs example_defs fires_def)

section \<open>Number of violations of one entry\<close>

text \<open>The staleness rule needs the status \<open>active\<close> and the two status rules need
  another one, so that an entry never has more than three violations.\<close>

lemma review_row_at_most_three:
  "length (fst (review_row D c sd P t r k)) \<le> 3"
proof -
  have "length (map issue (fst (review_row D c sd P t r k))) \<le> 3"
    unfolding review_row_issues by (simp split: option.splits)
  then show ?thesis by simp
qed

text \<open>
  C10. The body of the loop produces at most 4 violations for one entry, exactly 1 for
  an entry whose role is not in the catalog, and, unless the department rule, a status
  rule, the duplicate rule and the staleness rule all fire, not 4 (the contrapositive
  of: 4 only when all of them fire). By \<open>review_row_at_most_three\<close> the four never
  fire together and the count 4 is never reached.
\<close>

theorem review_row_at_most_four:
  "length (fst (review_row duplicate_pairs stale_cutoff stale_days policy_roles today r k)) \<le> 4
   \<and> (policy_roles (role r) = None \<longrightarrow>
        length (fst (review_row duplicate_pairs stale_cutoff stale_days policy_roles today r k)) = 1)
   \<and> (\<not> (fires ''ROLE_NOT_ALLOWED_FOR_DEPARTMENT''
             (fst (review_row duplicate_pairs stale_cutoff stale_days policy_roles today r k))
          \<and> (fires ''INVALID_STATUS''
                (fst (review_row duplicate_pairs stale_cutoff stale_days policy_roles today r k))
              \<or> fires ''INACTIVE_USER_HAS_ACCESS''
                (fst (review_row duplicate_pairs stale_cutoff stale_days policy_roles today r k)))
          \<and> fires ''DUPLICATE_USER_ROLE_ENTRY''
                (fst (review_row duplicate_pairs stale_cutoff stale_days policy_roles today r k))
          \<and> fires ''STALE_ACCOUNT''
                (fst (review_row duplicate_pairs stale_cutoff stale_days policy_roles today r k)))
        \<longrightarrow> length (fst (review_row duplicate_pairs stale_cutoff stale_days policy_roles today r k))
              \<noteq> 4)"
  using review_row_at_most_three [of duplicate_pairs stale_cutoff stale_days policy_roles today r k]
  by (simp add: review_row_unknown)

theorem review_row_at_most_four_witness:
  "example_catalog (role entry_U2) = None
   \<and> length (fst (review_row {} 0 90 example_catalog (frozen_clock example_now) entry_U2 1)) = 1
   \<and> \<not> fires ''INVALID_STATUS''
          (fst (review_row {(''U4'', ''analyst'')} (739833 * us_per_day + 43200000000) 90
                  example_catalog (frozen_clock example_now) entry_U4 1))
   \<and> \<not> fires ''INACTIVE_USER_HAS_ACCESS''
          (fst (review_row {(''U4'', ''analyst'')} (739833 * us_per_day + 43200000000) 90
                  example_catalog (frozen_clock example_now) entry_U4 1))
   \<and> length (fst (review_row {(''U4'', ''analyst'')} (739833 * us_per_day + 43200000000) 90
                     example_catalog (frozen_clock example_now) entry_U4 1)) = 3
   \<and> length (fst (review_row {(''U4'', ''analyst'')} (739833 * us_per_day + 43200000000) 90
                     example_catalog (frozen_clock example_now) entry_U4 1)) \<noteq> 4"
proof -
  have h: "example_catalog (role entry_U2) = None"
    by (simp add: example_defs)
  have a: "\<not> fires ''INVALID_STATUS''
          (fst (review_row {(''U4'', ''analyst'')} (739833 * us_per_day + 43200000000) 90
                  example_catalog (frozen_clock example_now) entry_U4 1))"
    and b: "\<not> fires ''INACTIVE_USER_HAS_ACCESS''
          (fst (review_row {(''U4'', ''analyst'')} (739833 * us_per_day + 43200000000) 90
                  example_catalog (frozen_clock example_now) entry_U4 1))"
    and c: "length (fst (review_row {(''U4'', ''analyst'')} (739833 * us_per_day + 43200000000) 90
                     example_catalog (frozen_clock example_now) entry_U4 1)) = 3"
    by (simp_all add: fires_def review_defs example_defs)
  from review_row_at_most_four
         [of "{}" 0 90 example_catalog "frozen_clock example_now" entry_U2 1]
       review_row_at_most_four
         [of "{(''U4'', ''analyst'')}" "739833 * us_per_day + 43200000000" 90 example_catalog
            "frozen_clock example_now" entry_U4 1]
  show ?thesis using h a b c by blast
qed

section \<open>The clock\<close>

lemma review_loop_snd:
  "snd (review_loop D c sd P t rs acc k) = snd (review_loop D c sd P t rs [] k)"
proof (induction rs arbitrary: acc k)
  case Nil
  show ?case by simp
next
  case (Cons r rs)
  show ?case
    by (simp add: split_beta) (metis Cons.IH)
qed

lemma review_loop_snd_Cons:
  "snd (review_loop D c sd P t (r # rs) [] k) =
     snd (review_loop D c sd P t rs [] (snd (review_row D c sd P t r k)))"
  by (simp add: split_beta review_loop_snd [of _ _ _ _ _ _ "fst (review_row D c sd P t r k)"])

text \<open>The body of the loop reads the clock once for each STALE_ACCOUNT violation.\<close>

lemma review_row_readings:
  "snd (review_row D c sd P t r k) =
     k + length (filter (\<lambda>v. issue v = ''STALE_ACCOUNT'') (fst (review_row D c sd P t r k)))"
proof (cases "P (role r)")
  case None
  then show ?thesis by (simp add: review_row_unknown)
next
  case (Some p)
  have "snd (review_row D c sd P t r k) =
      (if (\<exists>l. last_login r = Some l \<and> l < c) \<and> status r = ''active'' then Suc k else k)"
    using Some by (cases "last_login r") (simp_all add: review_row_def Let_def)
  then show ?thesis
    using Some by (simp add: review_row_known)
qed

lemma review_loop_readings:
  "snd (review_loop D c sd P t rs [] k) =
     k + length (filter (\<lambda>v. issue v = ''STALE_ACCOUNT'') (fst (review_loop D c sd P t rs [] k)))"
proof (induction rs arbitrary: k)
  case Nil
  show ?case by simp
next
  case (Cons r rs)
  show ?case
    unfolding review_loop_snd_Cons review_loop_Cons
    by (simp add: Cons.IH review_row_readings [of D c sd P t r k])
qed

text \<open>What the body of the loop appends depends on the clock through the one reading
  \<open>t k\<close> only, and but for the details not at all.\<close>

lemma review_row_same_reading:
  assumes "t k = t' k'"
  shows "fst (review_row D c sd P t r k) = fst (review_row D c sd P t' r k')"
proof (cases "P (role r)")
  case None
  then show ?thesis by (simp add: review_row_unknown)
next
  case (Some p)
  then show ?thesis by (simp add: review_row_known assms)
qed

lemma review_row_no_details:
  "map (\<lambda>v. v\<lparr>details := []\<rparr>) (fst (review_row D c sd P t r k)) =
   map (\<lambda>v. v\<lparr>details := []\<rparr>) (fst (review_row D c sd P t' r k'))"
proof (cases "P (role r)")
  case None
  then show ?thesis by (simp add: review_row_unknown)
next
  case (Some p)
  then show ?thesis by (simp add: review_row_known violation_def)
qed

lemma review_loop_frozen:
  assumes "\<forall>n. t n = now" and "\<forall>n. t' n = now"
  shows "fst (review_loop D c sd P t rs [] k) = fst (review_loop D c sd P t' rs [] k')"
proof (induction rs arbitrary: k k')
  case Nil
  show ?case by simp
next
  case (Cons r rs)
  have "fst (review_row D c sd P t r k) = fst (review_row D c sd P t' r k')"
    by (rule review_row_same_reading) (simp add: assms)
  then show ?case
    unfolding review_loop_Cons using Cons.IH by simp
qed

lemma review_loop_no_details:
  "map (\<lambda>v. v\<lparr>details := []\<rparr>) (fst (review_loop D c sd P t rs [] k)) =
   map (\<lambda>v. v\<lparr>details := []\<rparr>) (fst (review_loop D c sd P t' rs [] k'))"
proof (induction rs arbitrary: k k')
  case Nil
  show ?case by simp
next
  case (Cons r rs)
  show ?case
    unfolding review_loop_Cons map_append
    using Cons.IH review_row_no_details [of D c sd P t r k t' k'] by simp
qed

text \<open>
  C7, as amended. Two runs over the same entries, catalog and threshold whose clocks
  stand still at the same instant return the same result, details included. Line 160
  reads the clock once for the cutoff: two runs that agree on this first reading return
  the same violations but for their details. The run reads the clock once more, at line
  240, for each STALE_ACCOUNT violation it appends: with the one reading of line 160, the
  readings of a run number one more than its STALE_ACCOUNT violations.
\<close>

theorem frozen_clock_idempotent:
  "((\<forall>n. today n = now) \<and> (\<forall>n. today' n = now) \<longrightarrow>
      review_access rows policy_roles stale_days today' =
      review_access rows policy_roles stale_days today)
   \<and> (today' 0 = today 0 \<longrightarrow>
        map_sum id (map (\<lambda>v. v\<lparr>details := []\<rparr>))
          (review_access rows policy_roles stale_days today') =
        map_sum id (map (\<lambda>v. v\<lparr>details := []\<rparr>))
          (review_access rows policy_roles stale_days today))
   \<and> snd (review_loop duplicate_pairs stale_cutoff stale_days policy_roles today rows [] 1) =
       1 + length (filter (\<lambda>v. issue v = ''STALE_ACCOUNT'')
                    (fst (review_loop duplicate_pairs stale_cutoff stale_days policy_roles
                            today rows [] 1)))"
proof (intro conjI impI)
  assume fr: "(\<forall>n. today n = now) \<and> (\<forall>n. today' n = now)"
  then have "today' 0 = today 0" by simp
  moreover have "fst (review_loop (find_duplicates rows) c stale_days policy_roles today' rows [] 1)
      = fst (review_loop (find_duplicates rows) c stale_days policy_roles today rows [] 1)" for c
    using fr by (intro review_loop_frozen [of today' now today]) simp_all
  ultimately show "review_access rows policy_roles stale_days today' =
      review_access rows policy_roles stale_days today"
    by (simp add: review_access_def split: sum.splits)
next
  assume "today' 0 = today 0"
  then show "map_sum id (map (\<lambda>v. v\<lparr>details := []\<rparr>))
          (review_access rows policy_roles stale_days today') =
        map_sum id (map (\<lambda>v. v\<lparr>details := []\<rparr>))
          (review_access rows policy_roles stale_days today)"
    using review_loop_no_details [of "find_duplicates rows" _ stale_days policy_roles today' rows 1 today 1]
    by (simp add: review_access_def split: sum.splits)
next
  show "snd (review_loop duplicate_pairs stale_cutoff stale_days policy_roles today rows [] 1) =
       1 + length (filter (\<lambda>v. issue v = ''STALE_ACCOUNT'')
                    (fst (review_loop duplicate_pairs stale_cutoff stale_days policy_roles
                            today rows [] 1)))"
    by (rule review_loop_readings)
qed

theorem frozen_clock_idempotent_witness:
  "(\<forall>n. frozen_clock example_now n = example_now)
   \<and> review_access [entry_U6] example_catalog 90 (frozen_clock example_now) =
       review_access [entry_U6] example_catalog 90 (frozen_clock example_now)
   \<and> ticking_clock example_now 0 = frozen_clock example_now 0
   \<and> map_sum id (map (\<lambda>v. v\<lparr>details := []\<rparr>))
         (review_access [entry_U6] example_catalog 90 (ticking_clock example_now)) =
       map_sum id (map (\<lambda>v. v\<lparr>details := []\<rparr>))
         (review_access [entry_U6] example_catalog 90 (frozen_clock example_now))"
proof -
  have f: "\<forall>n. frozen_clock example_now n = example_now"
    by (simp add: frozen_clock_def)
  have z: "ticking_clock example_now 0 = frozen_clock example_now 0"
    by (simp add: frozen_clock_def ticking_clock_def)
  from frozen_clock_idempotent
         [of "frozen_clock example_now" example_now "frozen_clock example_now" "[entry_U6]"
            example_catalog 90]
       frozen_clock_idempotent
         [of "frozen_clock example_now" example_now "ticking_clock example_now" "[entry_U6]"
            example_catalog 90]
  show ?thesis using f z by blast
qed

text \<open>
  C7 as stated has the run compute one reference timestamp, once. On a clock that
  advances by a day at each reading, the run over the stale entry \<open>entry_U6\<close> reads
  the clock twice, and its output differs from that of the run on the clock that stands
  still, although both clocks give the same first reading: the cutoff is taken from the
  first reading, the number of days in the details from the second.
\<close>

theorem single_now_counterexample:
  "ticking_clock example_now 0 = frozen_clock example_now 0
   \<and> review_access [entry_U6] example_catalog 90 (frozen_clock example_now) =
       Inr [violation entry_U6 ''STALE_ACCOUNT'' ''LOW''
              ''Last login 307 days ago; threshold is 90 days.'']
   \<and> review_access [entry_U6] example_catalog 90 (ticking_clock example_now) =
       Inr [violation entry_U6 ''STALE_ACCOUNT'' ''LOW''
              ''Last login 308 days ago; threshold is 90 days.'']
   \<and> snd (review_loop {} (739833 * us_per_day + 43200000000) 90 example_catalog
             (ticking_clock example_now) [entry_U6] [] 1) = 2"
  by (simp add: review_defs example_defs)

section \<open>The policy catalog\<close>

lemma read_policy_rows_append:
  "read_policy_rows (pre @ post) i roles =
     (case read_policy_rows pre i roles of
        Inl e \<Rightarrow> Inl e
      | Inr roles' \<Rightarrow> read_policy_rows post (i + length pre) roles')"
  by (induction pre arbitrary: i roles) (auto simp: Let_def split: sum.splits)

lemma read_policy_rows_other:
  assumes "read_policy_rows rs i roles = Inr cat"
    and "\<forall>r \<in> set rs. strip (or_empty (r ''role'')) \<noteq> \<rho>"
  shows "cat \<rho> = roles \<rho>"
  using assms
proof (induction rs arbitrary: i roles)
  case Nil
  then show ?case by simp
next
  case (Cons r rs)
  from Cons.prems(1) have
    "read_policy_rows rs (Suc i)
       (roles(strip (or_empty (r ''role'')) \<mapsto>
          \<lparr>pr_role = strip (or_empty (r ''role'')),
           allowed_departments = parse_allowed (strip (or_empty (r ''department_allowed''))),
           description = strip (or_empty (r ''description''))\<rparr>)) = Inr cat"
    by (simp add: Let_def split: if_splits)
  from Cons.IH [OF this] Cons.prems(2) show ?case by auto
qed

lemma read_policy_rows_last:
  assumes "read_policy_rows (pre @ row # post) i roles = Inr cat"
    and "\<forall>r \<in> set post. strip (or_empty (r ''role'')) \<noteq> strip (or_empty (row ''role''))"
  shows "strip (or_empty (row ''department_allowed'')) \<noteq> []
         \<and> (\<exists>p. cat (strip (or_empty (row ''role''))) = Some p
                \<and> allowed_departments p =
                    parse_allowed (strip (or_empty (row ''department_allowed''))))"
proof -
  from assms(1) obtain roles' where
    "read_policy_rows (row # post) (i + length pre) roles' = Inr cat"
    by (auto simp: read_policy_rows_append split: sum.splits)
  then have d: "strip (or_empty (row ''department_allowed'')) \<noteq> []"
    and rest: "read_policy_rows post (Suc (i + length pre))
       (roles'(strip (or_empty (row ''role'')) \<mapsto>
          \<lparr>pr_role = strip (or_empty (row ''role'')),
           allowed_departments = parse_allowed (strip (or_empty (row ''department_allowed''))),
           description = strip (or_empty (row ''description''))\<rparr>)) = Inr cat"
    by (simp_all add: Let_def split: if_splits)
  from read_policy_rows_other [OF rest assms(2)] d show ?thesis by simp
qed

lemma star_in_parse_allowed:
  assumes "''*'' \<in> set (map strip (split_comma dep_raw))"
  shows "''*'' \<in> parse_allowed dep_raw"
  using assms by (auto simp: parse_allowed_def)

lemma read_policy_roles_Inr:
  "read_policy_roles fieldnames rows = Inr cat \<Longrightarrow> read_policy_rows rows 2 Map.empty = Inr cat"
  by (simp add: read_policy_roles_def Let_def split: if_splits)

text \<open>
  C8, as amended. When the catalog is loaded from a file in which the last row for a
  role has a department specification whose comma-separated names, stripped, include
  \<open>*\<close>, the department rule never fires for an entry of that role, whatever the
  entry's department: the policy allows all departments, as for the specification \<open>*\<close>
  alone.
\<close>

theorem star_in_list_allows_all:
  assumes "read_policy_roles fieldnames (pre @ row # post) = Inr policy_roles"
    and "\<forall>r' \<in> set post. strip (or_empty (r' ''role'')) \<noteq> strip (or_empty (row ''role''))"
    and "''*'' \<in> set (map strip (split_comma (strip (or_empty (row ''department_allowed'')))))"
    and "role r = strip (or_empty (row ''role''))"
  shows "\<not> fires ''ROLE_NOT_ALLOWED_FOR_DEPARTMENT''
             (fst (review_row duplicate_pairs stale_cutoff stale_days policy_roles today r k))"
proof -
  from read_policy_rows_last [OF read_policy_roles_Inr [OF assms(1)] assms(2)] assms(4)
  obtain p where p: "policy_roles (role r) = Some p"
    and a: "allowed_departments p = parse_allowed (strip (or_empty (row ''department_allowed'')))"
    by auto
  from a star_in_parse_allowed [OF assms(3)] have "''*'' \<in> allowed_departments p" by simp
  with p show ?thesis by (simp add: fires_def review_row_issues)
qed


theorem star_in_list_allows_all_witness:
  "read_policy_roles policy_header
     ([] @ policy_row ''analyst'' ''finance,*'' ''Financial analyst'' # []) =
     Inr [''analyst'' \<mapsto>
            \<lparr>pr_role = ''analyst'', allowed_departments = {''finance'', ''*''},
             description = ''Financial analyst''\<rparr>]
   \<and> ''*'' \<in> set (map strip (split_comma (strip (or_empty
               (policy_row ''analyst'' ''finance,*'' ''Financial analyst'' ''department_allowed'')))))
   \<and> role entry_U1 = strip (or_empty
        (policy_row ''analyst'' ''finance,*'' ''Financial analyst'' ''role''))
   \<and> \<not> fires ''ROLE_NOT_ALLOWED_FOR_DEPARTMENT''
          (fst (review_row {} 0 90
                  [''analyst'' \<mapsto>
                     \<lparr>pr_role = ''analyst'', allowed_departments = {''finance'', ''*''},
                      description = ''Financial analyst''\<rparr>]
                  (frozen_clock example_now) entry_U1 1))"
proof -
  have l: "read_policy_roles policy_header
     ([] @ policy_row ''analyst'' ''finance,*'' ''Financial analyst'' # []) =
     Inr [''analyst'' \<mapsto>
            \<lparr>pr_role = ''analyst'', allowed_departments = {''finance'', ''*''},
             description = ''Financial analyst''\<rparr>]"
    by (simp add: policy_defs)
  have n: "\<forall>r' \<in> set []. strip (or_empty (r' ''role'')) \<noteq>
             strip (or_empty (policy_row ''analyst'' ''finance,*'' ''Financial analyst'' ''role''))"
    by simp
  have s: "''*'' \<in> set (map strip (split_comma (strip (or_empty
               (policy_row ''analyst'' ''finance,*'' ''Financial analyst'' ''department_allowed'')))))"
    by (simp add: policy_defs)
  have r: "role entry_U1 = strip (or_empty
        (policy_row ''analyst'' ''finance,*'' ''Financial analyst'' ''role''))"
    by (simp add: policy_defs example_defs)
  from star_in_list_allows_all [OF l n s r, of "{}" 0 90 "frozen_clock example_now" 1]
  show ?thesis using l s r by blast
qed

text \<open>
  C8 as stated keeps the list \<open>finance,*\<close> an explicit set: an analyst of the sales
  department would then violate it. The loaded set holds the string \<open>*\<close>, and the run
  reports nothing for \<open>entry_U1\<close>, who is in sales.
\<close>

theorem star_in_list_counterexample:
  "read_policy_roles policy_header [policy_row ''analyst'' ''finance,*'' ''Financial analyst''] =
     Inr [''analyst'' \<mapsto>
            \<lparr>pr_role = ''analyst'', allowed_departments = {''finance'', ''*''},
             description = ''Financial analyst''\<rparr>]
   \<and> department entry_U1 = ''sales''
   \<and> review_access [entry_U1]
        [''analyst'' \<mapsto>
            \<lparr>pr_role = ''analyst'', allowed_departments = {''finance'', ''*''},
             description = ''Financial analyst''\<rparr>]
        90 (frozen_clock example_now) = Inr []"
  by (simp add: policy_defs review_defs example_defs)

text \<open>A row whose department specification is empty, once stripped, makes the load
  fail, wherever the row stands.\<close>

lemma empty_department_allowed_raises:
  assumes "strip (or_empty (row ''department_allowed'')) = []"
  shows "\<exists>e. read_policy_roles fieldnames (pre @ row # post) = Inl e"
proof -
  have "\<exists>e. read_policy_rows (row # post) i roles = Inl e" for i roles
    using assms by (simp add: Let_def)
  then have "\<exists>e. read_policy_rows (pre @ row # post) 2 Map.empty = Inl e"
    by (simp add: read_policy_rows_append split: sum.splits)
  then show ?thesis
    by (simp add: read_policy_roles_def Let_def)
qed

text \<open>
  C9 says that a successful load never yields an empty set of allowed departments. The
  specification made of one comma is not empty, so that line 122 lets it pass, and each
  of its two pieces is empty and dropped at line 125: the load succeeds with the empty
  set for the role, and a run with this catalog then rejects every department for it.
\<close>

theorem comma_only_allowed_empty:
  "strip (or_empty (policy_row ''analyst'' '','' ''Financial analyst'' ''department_allowed'')) = '',''
   \<and> read_policy_roles policy_header [policy_row ''analyst'' '','' ''Financial analyst''] =
       Inr [''analyst'' \<mapsto>
              \<lparr>pr_role = ''analyst'', allowed_departments = {},
               description = ''Financial analyst''\<rparr>]
   \<and> review_access [entry_U1]
         [''analyst'' \<mapsto>
            \<lparr>pr_role = ''analyst'', allowed_departments = {},
             description = ''Financial analyst''\<rparr>]
         90 (frozen_clock example_now) =
       Inr [violation entry_U1 ''ROLE_NOT_ALLOWED_FOR_DEPARTMENT'' ''HIGH''
              ''Role 'analyst' allowed only for departments: '']"
  by (simp add: policy_defs review_defs example_defs)

end
